theory Spec2Isabelle
  imports Complex_Main
begin

section \<open>D2Q9 Lattice Boltzmann solver: a shallow embedding of \<open>lbm_solver.py\<close>\<close>

text \<open>
  Arrays are nested lists in the order of the source's axes: a distribution field is
  \<open>Nx \<times> Ny \<times> 9\<close>, a scalar field \<open>Nx \<times> Ny\<close>, a velocity field \<open>Nx \<times> Ny \<times> 2\<close>.
  The source computes in binary floating point; the embedding computes in \<open>real\<close>, so
  rounding, infinities and NaN are outside the model. Array division in the source does
  not raise: a zero divisor gives an infinity or NaN there, while \<open>x / 0 = 0\<close> in HOL, so
  the value of a quotient is meaningful for a non-zero divisor only. Integer index
  arithmetic is exact in both; the integers of the mask computation are far from the
  bounds of 64-bit arithmetic for every grid that fits in memory, and are modelled in
  \<open>int\<close>.
\<close>

type_synonym cell = "real list"
type_synonym field = "real list list list"
type_synonym scalar_field = "real list list"
type_synonym vector_field = "real list list list"

subsection \<open>LBM parameters (module constants)\<close>

definition N_DISCRETE_VELOCITIES :: nat where
  "N_DISCRETE_VELOCITIES = 9"

definition LATTICE_VELOCITIES :: "int list list" where
  "LATTICE_VELOCITIES = [[0, 1, 0, -1, 0, 1, -1, -1, 1],
                         [0, 0, 1, 0, -1, 1, 1, -1, -1]]"

definition LATTICE_INDICES :: "nat list" where
  "LATTICE_INDICES = [0, 1, 2, 3, 4, 5, 6, 7, 8]"

definition OPPOSITE_LATTICE_INDICES :: "nat list" where
  "OPPOSITE_LATTICE_INDICES = [0, 3, 4, 1, 2, 7, 8, 5, 6]"

definition LATTICE_WEIGHTS :: "real list" where
  "LATTICE_WEIGHTS = [4/9, 1/9, 1/9, 1/9, 1/9, 1/36, 1/36, 1/36, 1/36]"

definition RIGHT_VELOCITIES :: "nat list" where
  "RIGHT_VELOCITIES = [1, 5, 8]"

definition UP_VELOCITIES :: "nat list" where
  "UP_VELOCITIES = [2, 5, 6]"

definition LEFT_VELOCITIES :: "nat list" where
  "LEFT_VELOCITIES = [3, 6, 7]"

definition DOWN_VELOCITIES :: "nat list" where
  "DOWN_VELOCITIES = [4, 7, 8]"

definition PURE_VERTICAL_VELOCITIES :: "nat list" where
  "PURE_VERTICAL_VELOCITIES = [0, 2, 4]"

definition PURE_HORIZONTAL_VELOCITIES :: "nat list" where
  "PURE_HORIZONTAL_VELOCITIES = [0, 1, 3]"

text \<open>
  The indices of the nine directions: \<open>range(N_DISCRETE_VELOCITIES)\<close> in the two loops of
  \<open>update\<close>, and the axis \<open>Q\<close> of the einsum contractions.
\<close>

definition direction_range :: "nat list" where
  "direction_range = [0..<N_DISCRETE_VELOCITIES]"

text \<open>Components of the velocity vector of direction \<open>i\<close>.\<close>

definition cx :: "nat \<Rightarrow> int" where
  "cx i = LATTICE_VELOCITIES ! 0 ! i"

definition cy :: "nat \<Rightarrow> int" where
  "cy i = LATTICE_VELOCITIES ! 1 ! i"

definition opposite :: "nat \<Rightarrow> nat" where
  "opposite i = OPPOSITE_LATTICE_INDICES ! i"

subsection \<open>Array shapes\<close>

definition field_shape :: "nat \<Rightarrow> nat \<Rightarrow> nat \<Rightarrow> 'a list list list \<Rightarrow> bool" where
  "field_shape nx ny q f \<longleftrightarrow>
     length f = nx \<and> list_all (\<lambda>col. length col = ny \<and> list_all (\<lambda>c. length c = q) col) f"

definition grid_shape :: "nat \<Rightarrow> nat \<Rightarrow> 'a list list \<Rightarrow> bool" where
  "grid_shape nx ny g \<longleftrightarrow> length g = nx \<and> list_all (\<lambda>col. length col = ny) g"

subsection \<open>Macroscopic fields and equilibrium\<close>

text \<open>\<open>jnp.sum(_, axis=-1)\<close> on a two-dimensional and on a three-dimensional array.\<close>

definition get_density_row :: "real list list \<Rightarrow> real list" where
  "get_density_row col = map sum_list col"

definition get_density :: "field \<Rightarrow> scalar_field" where
  "get_density f = map get_density_row f"

text \<open>\<open>einsum("NMQ,dQ->NMd", f, LATTICE_VELOCITIES) / rho[..., None]\<close>.\<close>

definition momentum :: "cell \<Rightarrow> int list \<Rightarrow> real" where
  "momentum c cd = sum_list (map2 (\<lambda>fq cq. fq * real_of_int cq) c cd)"

definition get_macroscopic_velocities :: "field \<Rightarrow> scalar_field \<Rightarrow> vector_field" where
  "get_macroscopic_velocities f rho =
     map2 (map2 (\<lambda>c r. map (\<lambda>cd. momentum c cd / r) LATTICE_VELOCITIES)) f rho"

text \<open>
  \<open>cu = einsum("dQ,NMd->NMQ", LATTICE_VELOCITIES, u)\<close>, \<open>u_sq = sum(u ** 2, axis=-1)\<close>
  and the equilibrium populations of one cell.
\<close>

definition cu_cell :: "real list \<Rightarrow> real list" where
  "cu_cell uv =
     map (\<lambda>q. sum_list (map2 (\<lambda>cd ud. real_of_int (cd ! q) * ud) LATTICE_VELOCITIES uv))
       direction_range"

definition u_sq_cell :: "real list \<Rightarrow> real" where
  "u_sq_cell uv = sum_list (map (\<lambda>v. v ^ 2) uv)"

definition equilibrium_cell :: "real list \<Rightarrow> real \<Rightarrow> cell" where
  "equilibrium_cell uv r =
     map2 (\<lambda>w c. r * w * (1 + 3 * c + 4.5 * c ^ 2 - 1.5 * u_sq_cell uv))
       LATTICE_WEIGHTS (cu_cell uv)"

definition get_equilibrium_discrete_velocities :: "vector_field \<Rightarrow> scalar_field \<Rightarrow> field" where
  "get_equilibrium_discrete_velocities u rho = map2 (map2 equilibrium_cell) u rho"

subsection \<open>Setup in \<open>main\<close>\<close>

definition REYNOLDS_NUMBER :: real where
  "REYNOLDS_NUMBER = 80"

definition N_POINTS_X :: nat where
  "N_POINTS_X = 300"

definition N_POINTS_Y :: nat where
  "N_POINTS_Y = 50"

definition CYLINDER_CENTER_INDEX_X :: int where
  "CYLINDER_CENTER_INDEX_X = int N_POINTS_X div 5"

definition CYLINDER_CENTER_INDEX_Y :: int where
  "CYLINDER_CENTER_INDEX_Y = int N_POINTS_Y div 2"

definition CYLINDER_RADIUS_INDICES :: int where
  "CYLINDER_RADIUS_INDICES = int N_POINTS_Y div 9"

definition MAX_HORIZONTAL_INFLOW_VELOCITY :: real where
  "MAX_HORIZONTAL_INFLOW_VELOCITY = 0.04"

datatype py_error = ZeroDivisionError

text \<open>
  \<open>nu = U * R / Rey\<close> (\<open>Rey\<close> is the Reynolds number) and \<open>omega = 1 / (3 * nu + 0.5)\<close>
  are computed on Python scalars, where \<open>/\<close> raises on a zero divisor. \<open>main\<close> makes no
  other check before the first call of \<open>update\<close>: the result \<open>Inr omega\<close> means that the
  time loop starts with this \<open>omega\<close>.
\<close>

definition kinematic_viscosity :: "real \<Rightarrow> int \<Rightarrow> real \<Rightarrow> py_error + real" where
  "kinematic_viscosity U R Rey =
     (if Rey = 0 then Inl ZeroDivisionError else Inr (U * real_of_int R / Rey))"

definition relaxation_frequency :: "real \<Rightarrow> py_error + real" where
  "relaxation_frequency nu =
     (if 3 * nu + 0.5 = 0 then Inl ZeroDivisionError else Inr (1 / (3 * nu + 0.5)))"

definition setup_omega :: "real \<Rightarrow> int \<Rightarrow> real \<Rightarrow> py_error + real" where
  "setup_omega U R Rey =
     (case kinematic_viscosity U R Rey of
        Inl e \<Rightarrow> Inl e
      | Inr nu \<Rightarrow> relaxation_frequency nu)"

text \<open>
  \<open>X, Y = meshgrid(x, y, indexing="ij")\<close> gives \<open>X[x, y] = x\<close> and \<open>Y[x, y] = y\<close>; the mask
  compares the square root of the integer squared distance with the radius.
\<close>

definition obstacle_cell :: "int \<Rightarrow> int \<Rightarrow> int \<Rightarrow> nat \<Rightarrow> nat \<Rightarrow> bool" where
  "obstacle_cell ccx ccy r x y \<longleftrightarrow>
     sqrt (real_of_int ((int x - ccx) ^ 2 + (int y - ccy) ^ 2)) < real_of_int r"

definition obstacle_mask :: "nat \<Rightarrow> nat \<Rightarrow> int \<Rightarrow> int \<Rightarrow> int \<Rightarrow> bool list list" where
  "obstacle_mask nx ny ccx ccy r =
     map (\<lambda>x. map (\<lambda>y. obstacle_cell ccx ccy r x y) [0..<ny]) [0..<nx]"

definition velocity_profile :: "nat \<Rightarrow> nat \<Rightarrow> real \<Rightarrow> vector_field" where
  "velocity_profile nx ny U = replicate nx (replicate ny [U, 0])"

subsection \<open>The stages of \<open>update\<close>\<close>

text \<open>\<open>cell.at[ds].set(src[ds])\<close> for a list \<open>ds\<close> of direction indices.\<close>

definition gather :: "nat list \<Rightarrow> 'a list \<Rightarrow> 'a list" where
  "gather ds c = map (\<lambda>i. c ! i) ds"

definition set_dirs :: "nat list \<Rightarrow> 'a list \<Rightarrow> 'a list \<Rightarrow> 'a list" where
  "set_dirs ds src c = fold (\<lambda>(i, v) a. a[i := v]) (zip ds (gather ds src)) c"

text \<open>
  Line 64: \<open>f.at[-1, :, LEFT].set(f[-2, :, LEFT])\<close>. The indices \<open>-1\<close> and \<open>-2\<close> are the
  last two columns; the embedding is meant for fields of at least two columns.
\<close>

definition outflow :: "field \<Rightarrow> field" where
  "outflow f =
     (let n = length f
      in f[n - 1 := map2 (\<lambda>c src. set_dirs LEFT_VELOCITIES src c) (f ! (n - 1)) (f ! (n - 2))])"

text \<open>
  Line 68: \<open>u.at[0, 1:-1, :].set(velocity_profile[0, 1:-1, :])\<close>. The slice \<open>1:-1\<close> of an
  axis of length \<open>ny\<close> holds the rows \<open>y\<close> with \<open>1 \<le> y\<close> and \<open>y < ny - 1\<close>.
\<close>

definition inflow_velocity :: "vector_field \<Rightarrow> vector_field \<Rightarrow> vector_field" where
  "inflow_velocity vp u =
     (let ny = length (u ! 0)
      in u[0 := map (\<lambda>y. if 1 \<le> y \<and> y + 1 < ny then vp ! 0 ! y else u ! 0 ! y) [0..<ny]])"

text \<open>Lines 69 to 72: the density of column 0.\<close>

definition inflow_density :: "field \<Rightarrow> vector_field \<Rightarrow> scalar_field \<Rightarrow> scalar_field" where
  "inflow_density f u rho =
     (let vert = get_density_row (map (gather PURE_VERTICAL_VELOCITIES) (f ! 0));
          left = get_density_row (map (gather LEFT_VELOCITIES) (f ! 0));
          ux = map (\<lambda>uv. uv ! 0) (u ! 0)
      in rho[0 := map2 (\<lambda>(a, b) v. (a + 2 * b) / (1 - v)) (zip vert left) ux])"

text \<open>Line 75: \<open>f.at[0, :, RIGHT].set(feq[0, :, RIGHT])\<close>.\<close>

definition inflow_populations :: "field \<Rightarrow> field \<Rightarrow> field" where
  "inflow_populations feq f =
     f[0 := map2 (\<lambda>c e. set_dirs RIGHT_VELOCITIES e c) (f ! 0) (feq ! 0)]"

text \<open>Line 77: \<open>f_post = f_prev - omega * (f_prev - feq)\<close>.\<close>

definition collision :: "real \<Rightarrow> field \<Rightarrow> field \<Rightarrow> field" where
  "collision omega f feq = map2 (map2 (map2 (\<lambda>a e. a - omega * (a - e)))) f feq"

text \<open>
  Lines 79 to 82: one pass of the loop writes direction \<open>LATTICE_INDICES[i]\<close> of every masked
  cell of \<open>f_post\<close> from direction \<open>OPPOSITE_LATTICE_INDICES[i]\<close> of the same cell of \<open>f_prev\<close>.
\<close>

definition bounce_direction :: "bool list list \<Rightarrow> field \<Rightarrow> nat \<Rightarrow> field \<Rightarrow> field" where
  "bounce_direction obst f_prev i f_post =
     map2 (\<lambda>(mcol, pcol) col.
             map2 (\<lambda>(m, p) c.
                     if m then c[LATTICE_INDICES ! i := p ! (OPPOSITE_LATTICE_INDICES ! i)] else c)
               (zip mcol pcol) col)
       (zip obst f_prev) f_post"

definition bounce_back :: "bool list list \<Rightarrow> field \<Rightarrow> field \<Rightarrow> field" where
  "bounce_back obst f_prev f_post = fold (bounce_direction obst f_prev) direction_range f_post"

text \<open>
  \<open>jnp.roll(a, s)\<close> along the first axis: the last \<open>s mod n\<close> entries move to the front.
\<close>

definition roll :: "int \<Rightarrow> 'a list \<Rightarrow> 'a list" where
  "roll s xs =
     (let n = length xs
      in if n = 0 then xs
         else let k = nat (s mod int n) in drop (n - k) xs @ take (n - k) xs)"

definition direction_plane :: "nat \<Rightarrow> field \<Rightarrow> scalar_field" where
  "direction_plane i f = map (map (\<lambda>c. c ! i)) f"

definition set_direction_plane :: "nat \<Rightarrow> scalar_field \<Rightarrow> field \<Rightarrow> field" where
  "set_direction_plane i g f = map2 (map2 (\<lambda>c v. c[i := v])) f g"

text \<open>Lines 84 to 91: the plane of direction \<open>i\<close> is rolled along axis 0, then along axis 1.\<close>

definition stream_direction :: "field \<Rightarrow> nat \<Rightarrow> field \<Rightarrow> field" where
  "stream_direction f_post i f_streamed =
     set_direction_plane i
       (map (roll (LATTICE_VELOCITIES ! 1 ! i))
          (roll (LATTICE_VELOCITIES ! 0 ! i) (direction_plane i f_post)))
       f_streamed"

definition streaming :: "field \<Rightarrow> field" where
  "streaming f_post = fold (stream_direction f_post) direction_range f_post"

text \<open>Lines 77 to 92: collision, bounce-back and streaming.\<close>

definition collide_and_stream :: "real \<Rightarrow> bool list list \<Rightarrow> field \<Rightarrow> field \<Rightarrow> field" where
  "collide_and_stream omega obst f_prev feq =
     streaming (bounce_back obst f_prev (collision omega f_prev feq))"

text \<open>
  Lines 65 to 75 on the field \<open>f\<close> left by the outflow patch: the velocity, the density and
  the equilibrium that the rest of the step uses, and the field with its inflow column set.
\<close>

definition inflow_stage :: "vector_field \<Rightarrow> field \<Rightarrow> vector_field \<times> scalar_field \<times> field \<times> field" where
  "inflow_stage vp f =
     (let rho = get_density f;
          u = get_macroscopic_velocities f rho;
          u1 = inflow_velocity vp u;
          rho1 = inflow_density f u1 rho;
          feq = get_equilibrium_discrete_velocities u1 rho1
      in (u1, rho1, feq, inflow_populations feq f))"

text \<open>The whole step; \<open>omega\<close>, the mask and the velocity profile are closed over in the source.\<close>

definition update :: "real \<Rightarrow> bool list list \<Rightarrow> vector_field \<Rightarrow> field \<Rightarrow> field" where
  "update omega obst vp f_prev =
     (case inflow_stage vp (outflow f_prev) of
        (u1, rho1, feq, f2) \<Rightarrow> collide_and_stream omega obst f2 feq)"

subsection \<open>A small field for concrete evaluations\<close>

text \<open>Two columns of three rows; the population \<open>i\<close> of cell \<open>(x, y)\<close> is \<open>100 x + 10 y + i + 1\<close>.\<close>

definition example_field :: field where
  "example_field =
      [[[1, 2, 3, 4, 5, 6, 7, 8, 9],
        [11, 12, 13, 14, 15, 16, 17, 18, 19],
        [21, 22, 23, 24, 25, 26, 27, 28, 29]],
       [[101, 102, 103, 104, 105, 106, 107, 108, 109],
        [111, 112, 113, 114, 115, 116, 117, 118, 119],
        [121, 122, 123, 124, 125, 126, 127, 128, 129]]]"

definition example_profile :: vector_field where
  "example_profile = velocity_profile 2 3 MAX_HORIZONTAL_INFLOW_VELOCITY"

section \<open>Auxiliary facts about the stages\<close>

subsection \<open>Shapes and indexing\<close>

lemma field_shape_iff:
  "field_shape nx ny q f \<longleftrightarrow>
     length f = nx \<and> (\<forall>x<nx. length (f ! x) = ny \<and> (\<forall>y<ny. length (f ! x ! y) = q))"
  by (auto simp: field_shape_def list_all_length)

lemma grid_shape_iff:
  "grid_shape nx ny g \<longleftrightarrow> length g = nx \<and> (\<forall>x<nx. length (g ! x) = ny)"
  by (auto simp: grid_shape_def list_all_length)

lemma field_ext:
  assumes "field_shape nx ny q f" and "field_shape nx ny q g"
    and "\<And>x y i. x < nx \<Longrightarrow> y < ny \<Longrightarrow> i < q \<Longrightarrow> f ! x ! y ! i = g ! x ! y ! i"
  shows "f = g"
proof (rule nth_equalityI)
  show "length f = length g"
    using assms(1,2) by (simp add: field_shape_iff)
next
  fix x assume "x < length f"
  then have x: "x < nx" using assms(1) by (simp add: field_shape_iff)
  show "f ! x = g ! x"
  proof (rule nth_equalityI)
    show "length (f ! x) = length (g ! x)"
      using assms(1,2) x by (simp add: field_shape_iff)
  next
    fix y assume "y < length (f ! x)"
    then have y: "y < ny" using assms(1) x by (simp add: field_shape_iff)
    show "f ! x ! y = g ! x ! y"
    proof (rule nth_equalityI)
      show "length (f ! x ! y) = length (g ! x ! y)"
        using assms(1,2) x y by (simp add: field_shape_iff)
    next
      fix i assume "i < length (f ! x ! y)"
      then have "i < q" using assms(1) x y by (simp add: field_shape_iff)
      then show "f ! x ! y ! i = g ! x ! y ! i"
        using assms(3) x y by simp
    qed
  qed
qed

lemma replicate_field_shape: "field_shape nx ny (length c) (replicate nx (replicate ny c))"
  by (simp add: field_shape_iff)

lemma replicate_grid_shape: "grid_shape nx ny (replicate nx (replicate ny r))"
  by (simp add: grid_shape_iff)

lemma direction_range_list: "direction_range = [0, 1, 2, 3, 4, 5, 6, 7, 8]"
  by (simp add: direction_range_def N_DISCRETE_VELOCITIES_def upt_rec)

lemma direction_range_set: "set direction_range = {..<9}"
  by (auto simp: direction_range_def N_DISCRETE_VELOCITIES_def)

lemma lattice_index_id: "i < 9 \<Longrightarrow> LATTICE_INDICES ! i = i"
proof -
  assume "i < 9"
  then have "i \<in> {0, 1, 2, 3, 4, 5, 6, 7, 8}" by auto
  then show ?thesis by (auto simp: LATTICE_INDICES_def)
qed

subsection \<open>Writing a set of directions\<close>

lemma set_dirs_fold_length:
  "length (fold (\<lambda>(i, v) a. a[i := v]) ps c) = length c"
  by (induction ps arbitrary: c) auto

lemma set_dirs_length [simp]: "length (set_dirs ds src c) = length c"
  by (simp add: set_dirs_def set_dirs_fold_length)

lemma set_dirs_fold_nth:
  "j < length c \<Longrightarrow>
   fold (\<lambda>(i, v) a. a[i := v]) (zip ds (map g ds)) c ! j = (if j \<in> set ds then g j else c ! j)"
proof (induction ds arbitrary: c)
  case Nil
  then show ?case by simp
next
  case (Cons d ds)
  then show ?case by (auto simp: nth_list_update)
qed

lemma set_dirs_nth:
  "j < length c \<Longrightarrow> set_dirs ds src c ! j = (if j \<in> set ds then src ! j else c ! j)"
  by (simp add: set_dirs_def gather_def set_dirs_fold_nth)

subsection \<open>Equilibrium\<close>

lemma cu_cell_nth:
  "length uv = 2 \<Longrightarrow> i < 9 \<Longrightarrow>
   cu_cell uv ! i = real_of_int (cx i) * uv ! 0 + real_of_int (cy i) * uv ! 1"
proof -
  assume len: "length uv = 2" and i: "i < 9"
  obtain a b where uv: "uv = [a, b]"
    using len by (metis (no_types) Suc_length_conv length_0_conv numeral_2_eq_2)
  have "direction_range ! i = i" "length direction_range = 9"
    using i by (auto simp: direction_range_list nth_Cons' )
  then show ?thesis
    using i by (simp add: cu_cell_def uv cx_def cy_def LATTICE_VELOCITIES_def)
qed

lemma u_sq_cell_two: "length uv = 2 \<Longrightarrow> u_sq_cell uv = (uv ! 0) ^ 2 + (uv ! 1) ^ 2"
proof -
  assume len: "length uv = 2"
  obtain a b where uv: "uv = [a, b]"
    using len by (metis (no_types) Suc_length_conv length_0_conv numeral_2_eq_2)
  show ?thesis by (simp add: uv u_sq_cell_def)
qed

lemma cu_cell_length [simp]: "length (cu_cell uv) = 9"
  by (simp add: cu_cell_def direction_range_list)

lemma equilibrium_cell_length [simp]: "length (equilibrium_cell uv r) = 9"
  by (simp add: equilibrium_cell_def LATTICE_WEIGHTS_def)

lemma equilibrium_cell_nth:
  "length uv = 2 \<Longrightarrow> i < 9 \<Longrightarrow>
   equilibrium_cell uv r ! i =
     r * LATTICE_WEIGHTS ! i *
       (1 + 3 * (real_of_int (cx i) * uv ! 0 + real_of_int (cy i) * uv ! 1)
          + 4.5 * (real_of_int (cx i) * uv ! 0 + real_of_int (cy i) * uv ! 1) ^ 2
          - 1.5 * ((uv ! 0) ^ 2 + (uv ! 1) ^ 2))"
proof -
  assume len: "length uv = 2" and i: "i < 9"
  have "length LATTICE_WEIGHTS = 9" by (simp add: LATTICE_WEIGHTS_def)
  then show ?thesis
    using i by (simp add: equilibrium_cell_def cu_cell_nth[OF len i] u_sq_cell_two[OF len])
qed

lemma equilibrium_nth:
  "x < length u \<Longrightarrow> x < length rho \<Longrightarrow> y < length (u ! x) \<Longrightarrow> y < length (rho ! x) \<Longrightarrow>
   get_equilibrium_discrete_velocities u rho ! x ! y = equilibrium_cell (u ! x ! y) (rho ! x ! y)"
  by (simp add: get_equilibrium_discrete_velocities_def)

lemma equilibrium_shape:
  "field_shape nx ny 2 u \<Longrightarrow> grid_shape nx ny rho \<Longrightarrow>
   field_shape nx ny 9 (get_equilibrium_discrete_velocities u rho)"
  by (simp add: field_shape_iff grid_shape_iff get_equilibrium_discrete_velocities_def)

lemma equilibrium_value:
  assumes "field_shape nx ny 2 u" and "grid_shape nx ny rho"
    and "x < nx" and "y < ny" and "i < 9"
  shows "get_equilibrium_discrete_velocities u rho ! x ! y ! i =
     rho ! x ! y * LATTICE_WEIGHTS ! i *
       (1 + 3 * (real_of_int (cx i) * u ! x ! y ! 0 + real_of_int (cy i) * u ! x ! y ! 1)
          + 4.5 * (real_of_int (cx i) * u ! x ! y ! 0 + real_of_int (cy i) * u ! x ! y ! 1) ^ 2
          - 1.5 * ((u ! x ! y ! 0) ^ 2 + (u ! x ! y ! 1) ^ 2))"
proof -
  have "length (u ! x ! y) = 2" "x < length u" "x < length rho" "y < length (u ! x)" "y < length (rho ! x)"
    using assms by (auto simp: field_shape_iff grid_shape_iff)
  then show ?thesis
    using assms(5) by (simp add: equilibrium_nth equilibrium_cell_nth)
qed

lemma uniform_equilibrium:
  "get_equilibrium_discrete_velocities (replicate nx (replicate ny uv)) (replicate nx (replicate ny r))
     = replicate nx (replicate ny (equilibrium_cell uv r))"
  by (simp add: get_equilibrium_discrete_velocities_def zip_replicate map_replicate)

lemma rest_equilibrium_cell_list:
  "equilibrium_cell [0, 0] r = [r * (4/9), r * (1/9), r * (1/9), r * (1/9), r * (1/9),
      r * (1/36), r * (1/36), r * (1/36), r * (1/36)]"
  by (simp add: equilibrium_cell_def cu_cell_def u_sq_cell_def LATTICE_WEIGHTS_def
      direction_range_list LATTICE_VELOCITIES_def)

subsection \<open>Density and velocity\<close>

lemma get_density_shape: "field_shape nx ny q f \<Longrightarrow> grid_shape nx ny (get_density f)"
  by (simp add: field_shape_iff grid_shape_iff get_density_def get_density_row_def)

lemma get_density_nth:
  "field_shape nx ny q f \<Longrightarrow> x < nx \<Longrightarrow> y < ny \<Longrightarrow> get_density f ! x ! y = sum_list (f ! x ! y)"
  by (simp add: field_shape_iff get_density_def get_density_row_def)

lemma velocities_shape:
  "field_shape nx ny q f \<Longrightarrow> grid_shape nx ny rho \<Longrightarrow>
   field_shape nx ny 2 (get_macroscopic_velocities f rho)"
  by (simp add: field_shape_iff grid_shape_iff get_macroscopic_velocities_def LATTICE_VELOCITIES_def)

lemma velocities_nth:
  "field_shape nx ny q f \<Longrightarrow> grid_shape nx ny rho \<Longrightarrow> x < nx \<Longrightarrow> y < ny \<Longrightarrow>
   get_macroscopic_velocities f rho ! x ! y =
     map (\<lambda>cd. momentum (f ! x ! y) cd / rho ! x ! y) LATTICE_VELOCITIES"
  by (simp add: field_shape_iff grid_shape_iff get_macroscopic_velocities_def)

lemma momentum_x:
  "length c = 9 \<Longrightarrow>
   momentum c (LATTICE_VELOCITIES ! 0) = c ! 1 - c ! 3 + c ! 5 - c ! 6 - c ! 7 + c ! 8"
proof -
  assume "length c = 9"
  then obtain a0 a1 a2 a3 a4 a5 a6 a7 a8 where "c = [a0, a1, a2, a3, a4, a5, a6, a7, a8]"
    by (auto simp: eval_nat_numeral length_Suc_conv)
  then show ?thesis
    by (simp add: momentum_def LATTICE_VELOCITIES_def)
qed

subsection \<open>Collision\<close>

lemma collision_shape:
  "field_shape nx ny q f \<Longrightarrow> field_shape nx ny q feq \<Longrightarrow> field_shape nx ny q (collision omega f feq)"
  by (simp add: field_shape_iff collision_def)

lemma collision_nth:
  "field_shape nx ny q f \<Longrightarrow> field_shape nx ny q feq \<Longrightarrow> x < nx \<Longrightarrow> y < ny \<Longrightarrow> i < q \<Longrightarrow>
   collision omega f feq ! x ! y ! i = f ! x ! y ! i - omega * (f ! x ! y ! i - feq ! x ! y ! i)"
  by (simp add: field_shape_iff collision_def)

subsection \<open>Bounce-back\<close>

lemma bounce_direction_shape:
  "grid_shape nx ny obst \<Longrightarrow> field_shape nx ny q f_prev \<Longrightarrow> field_shape nx ny q f_post \<Longrightarrow>
   field_shape nx ny q (bounce_direction obst f_prev i f_post)"
  by (simp add: field_shape_iff grid_shape_iff bounce_direction_def)

lemma bounce_direction_cell:
  "grid_shape nx ny obst \<Longrightarrow> field_shape nx ny q f_prev \<Longrightarrow> field_shape nx ny q f_post \<Longrightarrow>
   x < nx \<Longrightarrow> y < ny \<Longrightarrow>
   bounce_direction obst f_prev i f_post ! x ! y =
     (if obst ! x ! y
      then (f_post ! x ! y)[LATTICE_INDICES ! i := f_prev ! x ! y ! (OPPOSITE_LATTICE_INDICES ! i)]
      else f_post ! x ! y)"
  by (simp add: field_shape_iff grid_shape_iff bounce_direction_def)

lemma bounce_fold_shape:
  "grid_shape nx ny obst \<Longrightarrow> field_shape nx ny q f_prev \<Longrightarrow> field_shape nx ny q f_post \<Longrightarrow>
   field_shape nx ny q (fold (bounce_direction obst f_prev) ds f_post)"
  by (induction ds arbitrary: f_post) (simp_all add: bounce_direction_shape)

lemma bounce_fold_nth:
  assumes "grid_shape nx ny obst" and "field_shape nx ny 9 f_prev"
    and "x < nx" and "y < ny" and "j < 9"
  shows "field_shape nx ny 9 f_post \<Longrightarrow> \<forall>d\<in>set ds. d < 9 \<Longrightarrow>
     fold (bounce_direction obst f_prev) ds f_post ! x ! y ! j =
       (if obst ! x ! y \<and> j \<in> set ds then f_prev ! x ! y ! opposite j else f_post ! x ! y ! j)"
proof (induction ds arbitrary: f_post)
  case Nil
  then show ?case by simp
next
  case (Cons d ds)
  let ?g = "bounce_direction obst f_prev d f_post"
  have d: "d < 9" using Cons.prems(2) by simp
  have sh: "field_shape nx ny 9 ?g"
    using assms(1,2) Cons.prems(1) by (rule bounce_direction_shape)
  have len: "j < length (f_post ! x ! y)"
    using Cons.prems(1) assms(3,4,5) by (simp add: field_shape_iff)
  have step: "?g ! x ! y ! j =
      (if obst ! x ! y \<and> j = d then f_prev ! x ! y ! opposite j else f_post ! x ! y ! j)"
    using len d
    by (simp add: bounce_direction_cell[OF assms(1,2) Cons.prems(1) assms(3,4)]
        lattice_index_id opposite_def nth_list_update)
  have "fold (bounce_direction obst f_prev) (d # ds) f_post ! x ! y ! j =
      fold (bounce_direction obst f_prev) ds ?g ! x ! y ! j"
    by simp
  also have "\<dots> = (if obst ! x ! y \<and> j \<in> set ds then f_prev ! x ! y ! opposite j else ?g ! x ! y ! j)"
    using Cons.IH[OF sh] Cons.prems(2) by simp
  finally show ?case
    using step by auto
qed

lemma bounce_back_shape:
  "grid_shape nx ny obst \<Longrightarrow> field_shape nx ny q f_prev \<Longrightarrow> field_shape nx ny q f_post \<Longrightarrow>
   field_shape nx ny q (bounce_back obst f_prev f_post)"
  by (simp add: bounce_back_def bounce_fold_shape)

lemma bounce_back_nth:
  assumes "grid_shape nx ny obst" and "field_shape nx ny 9 f_prev" and "field_shape nx ny 9 f_post"
    and "x < nx" and "y < ny" and "j < 9"
  shows "bounce_back obst f_prev f_post ! x ! y ! j =
       (if obst ! x ! y then f_prev ! x ! y ! opposite j else f_post ! x ! y ! j)"
proof -
  have "\<forall>d\<in>set direction_range. d < 9"
    by (simp add: direction_range_set)
  from bounce_fold_nth[OF assms(1,2,4,5,6,3) this] show ?thesis
    using assms(6) by (simp add: bounce_back_def direction_range_set)
qed

subsection \<open>Rolling and streaming\<close>

lemma roll_length [simp]: "length (roll s xs) = length xs"
  by (auto simp: roll_def Let_def)

lemma roll_index_less:
  "0 < n \<Longrightarrow> nat ((int i - s) mod int n) < n"
  by (simp add: nat_less_iff)

lemma roll_nth:
  assumes "i < length xs"
  shows "roll s xs ! i = xs ! nat ((int i - s) mod int (length xs))"
proof -
  define n where "n = length xs"
  define k where "k = nat (s mod int n)"
  have n: "0 < n" using assms by (cases xs) (simp_all add: n_def)
  have i: "i < n" using assms by (simp add: n_def)
  have k: "k < n" using n by (simp add: k_def nat_less_iff)
  have sk: "s mod int n = int k" using n by (simp add: k_def)
  have idx: "(int i - s) mod int n = (int i - int k) mod int n"
    using sk by (metis mod_diff_right_eq)
  have r: "roll s xs = drop (n - k) xs @ take (n - k) xs"
    using n by (simp add: roll_def Let_def n_def k_def)
  show ?thesis
  proof (cases "i < k")
    case True
    have "(int i - int k) mod int n = (int i - int k + int n) mod int n"
      by simp
    also have "\<dots> = int i - int k + int n"
      using True k i by (intro mod_pos_pos_trivial) linarith+
    also have "\<dots> = int (n - k + i)"
      using k by linarith
    finally have "nat ((int i - s) mod int n) = n - k + i"
      using idx by simp
    moreover have "roll s xs ! i = xs ! (n - k + i)"
      using True k by (simp add: r nth_append n_def)
    ultimately show ?thesis by (simp add: n_def)
  next
    case False
    have "(int i - int k) mod int n = int i - int k"
      using False k i by (intro mod_pos_pos_trivial) linarith+
    also have "\<dots> = int (i - k)"
      using False by linarith
    finally have "nat ((int i - s) mod int n) = i - k"
      using idx by simp
    moreover have "roll s xs ! i = xs ! (i - k)"
      using False k i by (simp add: r nth_append n_def)
    ultimately show ?thesis by (simp add: n_def)
  qed
qed

lemma stream_direction_shape:
  "field_shape nx ny q f_post \<Longrightarrow> field_shape nx ny q g \<Longrightarrow>
   field_shape nx ny q (stream_direction f_post i g)"
  by (simp add: field_shape_iff stream_direction_def set_direction_plane_def direction_plane_def
      roll_nth roll_index_less)

lemma stream_direction_nth:
  assumes "field_shape nx ny q f_post" and "field_shape nx ny q g"
    and "x < nx" and "y < ny" and "j < q"
  shows "stream_direction f_post i g ! x ! y ! j =
     (if j = i
      then f_post ! nat ((int x - cx i) mod int nx) ! nat ((int y - cy i) mod int ny) ! i
      else g ! x ! y ! j)"
proof -
  define x' where "x' = nat ((int x - cx i) mod int nx)"
  define y' where "y' = nat ((int y - cy i) mod int ny)"
  define p where "p = direction_plane i f_post"
  define r where "r = map (roll (cy i)) (roll (cx i) p)"
  have sd: "stream_direction f_post i g = set_direction_plane i r g"
    by (simp add: stream_direction_def r_def p_def cx_def cy_def)
  have x': "x' < nx" and y': "y' < ny"
    using assms(3,4) by (simp_all add: roll_index_less x'_def y'_def)
  have lp: "length p = nx"
    using assms(1) by (simp add: p_def direction_plane_def field_shape_iff)
  have rx: "roll (cx i) p ! x = p ! x'"
    using assms(3) lp by (simp add: roll_nth x'_def)
  have lpx: "length (p ! x') = ny"
    using assms(1) x' by (simp add: p_def direction_plane_def field_shape_iff)
  have ry: "roll (cy i) (p ! x') ! y = p ! x' ! y'"
    using assms(4) lpx by (simp add: roll_nth y'_def)
  have pv: "p ! x' ! y' = f_post ! x' ! y' ! i"
    using assms(1) x' y' by (simp add: p_def direction_plane_def field_shape_iff)
  have lr: "length r = nx"
    using lp by (simp add: r_def)
  have rxe: "r ! x = roll (cy i) (p ! x')"
    using assms(3) lp rx by (simp add: r_def)
  have lrx: "length (r ! x) = ny"
    using lpx by (simp add: rxe)
  have plane: "r ! x ! y = f_post ! x' ! y' ! i"
    using ry pv by (simp add: rxe)
  have "stream_direction f_post i g ! x ! y = (g ! x ! y)[i := r ! x ! y]"
    using assms(2,3,4) lr lrx
    by (simp add: sd set_direction_plane_def field_shape_iff)
  moreover have "j < length (g ! x ! y)"
    using assms(2,3,4,5) by (simp add: field_shape_iff)
  ultimately show ?thesis
    using plane by (simp add: nth_list_update x'_def y'_def)
qed

lemma stream_fold_shape:
  "field_shape nx ny q f_post \<Longrightarrow> field_shape nx ny q g \<Longrightarrow>
   field_shape nx ny q (fold (stream_direction f_post) ds g)"
  by (induction ds arbitrary: g) (simp_all add: stream_direction_shape)

lemma stream_fold_nth:
  assumes "field_shape nx ny q f_post" and "x < nx" and "y < ny" and "j < q"
  shows "field_shape nx ny q g \<Longrightarrow>
     fold (stream_direction f_post) ds g ! x ! y ! j =
       (if j \<in> set ds
        then f_post ! nat ((int x - cx j) mod int nx) ! nat ((int y - cy j) mod int ny) ! j
        else g ! x ! y ! j)"
proof (induction ds arbitrary: g)
  case Nil
  then show ?case by simp
next
  case (Cons d ds)
  let ?g = "stream_direction f_post d g"
  have sh: "field_shape nx ny q ?g"
    using assms(1) Cons.prems by (rule stream_direction_shape)
  have "fold (stream_direction f_post) (d # ds) g ! x ! y ! j =
      fold (stream_direction f_post) ds ?g ! x ! y ! j"
    by simp
  also have "\<dots> = (if j \<in> set ds
        then f_post ! nat ((int x - cx j) mod int nx) ! nat ((int y - cy j) mod int ny) ! j
        else ?g ! x ! y ! j)"
    by (rule Cons.IH[OF sh])
  finally show ?case
    using stream_direction_nth[OF assms(1) Cons.prems assms(2,3,4), of d] by auto
qed

lemma streaming_shape:
  "field_shape nx ny q f_post \<Longrightarrow> field_shape nx ny q (streaming f_post)"
  by (simp add: streaming_def stream_fold_shape)

lemma streaming_nth:
  assumes "field_shape nx ny 9 f_post" and "x < nx" and "y < ny" and "i < 9"
  shows "streaming f_post ! x ! y ! i =
           f_post ! nat ((int x - cx i) mod int nx) ! nat ((int y - cy i) mod int ny) ! i"
  using stream_fold_nth[OF assms assms(1), of direction_range] assms(4)
  by (simp add: streaming_def direction_range_set)

subsection \<open>Outflow\<close>

lemma outflow_shape:
  "field_shape nx ny q f \<Longrightarrow> 2 \<le> nx \<Longrightarrow> field_shape nx ny q (outflow f)"
  by (simp add: field_shape_iff outflow_def Let_def nth_list_update)

lemma outflow_nth:
  assumes "field_shape nx ny q f" and "2 \<le> nx" and "x < nx" and "y < ny" and "i < q"
  shows "outflow f ! x ! y ! i =
     (if x = nx - 1 \<and> i \<in> set LEFT_VELOCITIES then f ! (nx - 2) ! y ! i else f ! x ! y ! i)"
proof (cases "x = nx - 1")
  case True
  have l: "length f = nx" "length (f ! (nx - 1)) = ny" "length (f ! (nx - 2)) = ny"
    "length (f ! (nx - 1) ! y) = q"
    using assms by (simp_all add: field_shape_iff)
  have "outflow f ! x ! y = set_dirs LEFT_VELOCITIES (f ! (nx - 2) ! y) (f ! (nx - 1) ! y)"
    using True l assms(2,4) by (simp add: outflow_def Let_def)
  then show ?thesis
    using True l assms(5) by (simp add: set_dirs_nth)
next
  case False
  then show ?thesis
    using assms by (simp add: outflow_def Let_def field_shape_iff)
qed

lemma outflow_column0:
  assumes "field_shape nx ny 9 f" and "2 \<le> nx" and "y < ny"
  shows "outflow f ! 0 ! y = f ! 0 ! y"
  using assms by (simp add: outflow_def Let_def field_shape_iff)

subsection \<open>Inflow\<close>

lemma inflow_velocity_shape:
  "field_shape nx ny 2 u \<Longrightarrow> field_shape nx ny 2 vp \<Longrightarrow> field_shape nx ny 2 (inflow_velocity vp u)"
  by (auto simp: field_shape_iff inflow_velocity_def Let_def nth_list_update)

lemma inflow_velocity_nth:
  "field_shape nx ny 2 u \<Longrightarrow> x < nx \<Longrightarrow> y < ny \<Longrightarrow>
   inflow_velocity vp u ! x ! y =
     (if x = 0 \<and> 1 \<le> y \<and> y + 1 < ny then vp ! 0 ! y else u ! x ! y)"
  by (auto simp: field_shape_iff inflow_velocity_def Let_def nth_list_update)

lemma inflow_density_shape:
  "field_shape nx ny q f \<Longrightarrow> field_shape nx ny 2 u \<Longrightarrow> grid_shape nx ny rho \<Longrightarrow>
   grid_shape nx ny (inflow_density f u rho)"
  by (auto simp: field_shape_iff grid_shape_iff inflow_density_def Let_def nth_list_update get_density_row_def)

lemma inflow_density_nth:
  "field_shape nx ny q f \<Longrightarrow> field_shape nx ny 2 u \<Longrightarrow> grid_shape nx ny rho \<Longrightarrow>
   x < nx \<Longrightarrow> y < ny \<Longrightarrow>
   inflow_density f u rho ! x ! y =
     (if x = 0
      then ((\<Sum>i\<leftarrow>PURE_VERTICAL_VELOCITIES. f ! 0 ! y ! i) + 2 * (\<Sum>i\<leftarrow>LEFT_VELOCITIES. f ! 0 ! y ! i))
             / (1 - u ! 0 ! y ! 0)
      else rho ! x ! y)"
  by (auto simp: field_shape_iff grid_shape_iff inflow_density_def Let_def nth_list_update get_density_row_def gather_def)

lemma inflow_populations_shape:
  "field_shape nx ny q f \<Longrightarrow> field_shape nx ny q feq \<Longrightarrow>
   field_shape nx ny q (inflow_populations feq f)"
  by (auto simp: field_shape_iff inflow_populations_def nth_list_update)

lemma inflow_populations_nth:
  "field_shape nx ny q f \<Longrightarrow> field_shape nx ny q feq \<Longrightarrow> x < nx \<Longrightarrow> y < ny \<Longrightarrow> i < q \<Longrightarrow>
   inflow_populations feq f ! x ! y ! i =
     (if x = 0 \<and> i \<in> set RIGHT_VELOCITIES then feq ! 0 ! y ! i else f ! x ! y ! i)"
  by (auto simp: field_shape_iff inflow_populations_def nth_list_update set_dirs_nth)

lemma inflow_stage_facts:
  assumes f: "field_shape nx ny 9 f" and vp: "field_shape nx ny 2 vp"
    and st: "inflow_stage vp f = (u1, rho1, feq, f2)"
  shows "u1 = inflow_velocity vp (get_macroscopic_velocities f (get_density f))"
    and "rho1 = inflow_density f u1 (get_density f)"
    and "feq = get_equilibrium_discrete_velocities u1 rho1"
    and "f2 = inflow_populations feq f"
    and "field_shape nx ny 2 u1" and "grid_shape nx ny rho1" and "field_shape nx ny 9 feq"
    and "field_shape nx ny 9 f2"
proof -
  show u1: "u1 = inflow_velocity vp (get_macroscopic_velocities f (get_density f))"
    and rho1: "rho1 = inflow_density f u1 (get_density f)"
    and feq: "feq = get_equilibrium_discrete_velocities u1 rho1"
    and f2: "f2 = inflow_populations feq f"
    using st by (auto simp: inflow_stage_def Let_def)
  have d: "grid_shape nx ny (get_density f)"
    using f by (rule get_density_shape)
  have u: "field_shape nx ny 2 (get_macroscopic_velocities f (get_density f))"
    using f d by (rule velocities_shape)
  show su: "field_shape nx ny 2 u1"
    unfolding u1 using u vp by (rule inflow_velocity_shape)
  show sr: "grid_shape nx ny rho1"
    unfolding rho1 using f su d by (rule inflow_density_shape)
  show se: "field_shape nx ny 9 feq"
    unfolding feq using su sr by (rule equilibrium_shape)
  show "field_shape nx ny 9 f2"
    unfolding f2 using f se by (rule inflow_populations_shape)
qed

subsection \<open>Obstacle mask\<close>

lemma obstacle_mask_nth:
  "x < nx \<Longrightarrow> y < ny \<Longrightarrow> obstacle_mask nx ny ccx ccy r ! x ! y = obstacle_cell ccx ccy r x y"
  by (simp add: obstacle_mask_def)

lemma obstacle_mask_shape: "grid_shape nx ny (obstacle_mask nx ny ccx ccy r)"
  by (simp add: grid_shape_iff obstacle_mask_def)

lemma obstacle_cell_squared:
  "0 \<le> r \<Longrightarrow> obstacle_cell ccx ccy r x y \<longleftrightarrow> (int x - ccx) ^ 2 + (int y - ccy) ^ 2 < r ^ 2"
proof -
  assume r: "0 \<le> r"
  define d where "d = (int x - ccx) ^ 2 + (int y - ccy) ^ 2"
  have d: "0 \<le> d" by (simp add: d_def)
  have rr: "sqrt ((real_of_int r) ^ 2) = real_of_int r"
    using r by simp
  have "sqrt (real_of_int d) < sqrt ((real_of_int r) ^ 2) \<longleftrightarrow> real_of_int d < (real_of_int r) ^ 2"
    by (rule real_sqrt_less_iff)
  then have "sqrt (real_of_int d) < real_of_int r \<longleftrightarrow> real_of_int d < (real_of_int r) ^ 2"
    by (simp only: rr)
  also have "\<dots> \<longleftrightarrow> d < r ^ 2"
    by (metis of_int_less_iff of_int_power)
  finally show ?thesis
    by (simp add: obstacle_cell_def d_def)
qed

lemma obstacle_cell_boundary:
  "(int x - ccx) ^ 2 + (int y - ccy) ^ 2 = r ^ 2 \<Longrightarrow> \<not> obstacle_cell ccx ccy r x y"
proof -
  assume e: "(int x - ccx) ^ 2 + (int y - ccy) ^ 2 = r ^ 2"
  have "sqrt (real_of_int (r ^ 2)) = \<bar>real_of_int r\<bar>"
    by simp
  then show ?thesis
    by (simp add: obstacle_cell_def e)
qed

section \<open>Concrete evaluations\<close>

text \<open>The stages computed on the example field, by rewriting with the defining equations.\<close>

lemma outflow_example:
  "outflow example_field ! 1 ! 1 = [111, 112, 113, 14, 115, 116, 17, 18, 119]"
  by code_simp

lemma inflow_stage_example:
  "(case inflow_stage example_profile (outflow example_field) of
      (u1, rho1, feq, f2) \<Rightarrow>
        u1 ! 0 ! 1 = [1 / 25, 0]
        \<and> rho1 ! 0 = [45, 3425 / 24, 225]
        \<and> f2 ! 0 ! 1 = [11, 96311 / 5400, 13, 14, 15, 96311 / 21600, 17, 18, 96311 / 21600])"
  by code_simp

lemma bounce_back_example:
  "bounce_back [[True, False, False], [False, False, False]] example_field
     (collision 2 example_field example_field) ! 0 ! 0 = [1, 4, 5, 2, 3, 8, 9, 6, 7]"
  by code_simp

lemma streaming_example:
  "streaming example_field ! 0 ! 0 = [1, 102, 23, 104, 15, 126, 127, 118, 119]"
  by code_simp

section \<open>The claims\<close>

subsection \<open>Inflow\<close>

text \<open>
  C1. In the inflow stage of one step the prescribed velocity profile replaces the velocity
  at column 0 in every row but the first and the last, and the velocity of every other
  cell stays the one extracted from the field. Then, for every row \<open>y\<close>, the density at
  \<open>(0, y)\<close> becomes the sum of the pure-vertical populations plus twice the sum of the
  leftward populations of \<open>f_prev\<close> at \<open>(0, y)\<close>, divided by \<open>1 - u_x[0, y]\<close>; the density
  of every other column stays the extracted one. Then the three rightward populations of
  column 0 are overwritten with the equilibrium values computed from this velocity and
  density, and every other population of the field is kept. The rest of the step works on
  the field and the equilibrium so obtained.
\<close>

theorem inflow_zou_he:
  assumes f: "field_shape nx ny 9 f_prev" and vp: "field_shape nx ny 2 vp" and nx: "2 \<le> nx"
    and st: "inflow_stage vp (outflow f_prev) = (u1, rho1, feq, f2)"
  shows "field_shape nx ny 2 u1 \<and> grid_shape nx ny rho1 \<and> field_shape nx ny 9 f2
     \<and> (\<forall>x<nx. \<forall>y<ny.
           u1 ! x ! y =
             (if x = 0 \<and> 1 \<le> y \<and> y + 1 < ny then vp ! 0 ! y
              else map (\<lambda>cd. momentum (outflow f_prev ! x ! y) cd / sum_list (outflow f_prev ! x ! y))
                     LATTICE_VELOCITIES))
     \<and> (\<forall>x<nx. \<forall>y<ny.
           rho1 ! x ! y =
             (if x = 0
              then ((\<Sum>i\<leftarrow>PURE_VERTICAL_VELOCITIES. f_prev ! 0 ! y ! i)
                      + 2 * (\<Sum>i\<leftarrow>LEFT_VELOCITIES. f_prev ! 0 ! y ! i)) / (1 - u1 ! 0 ! y ! 0)
              else sum_list (outflow f_prev ! x ! y)))
     \<and> feq = get_equilibrium_discrete_velocities u1 rho1
     \<and> (\<forall>x<nx. \<forall>y<ny. \<forall>i<9.
           feq ! x ! y ! i =
             rho1 ! x ! y * LATTICE_WEIGHTS ! i *
               (1 + 3 * (real_of_int (cx i) * u1 ! x ! y ! 0 + real_of_int (cy i) * u1 ! x ! y ! 1)
                  + 4.5 * (real_of_int (cx i) * u1 ! x ! y ! 0 + real_of_int (cy i) * u1 ! x ! y ! 1) ^ 2
                  - 1.5 * ((u1 ! x ! y ! 0) ^ 2 + (u1 ! x ! y ! 1) ^ 2)))
     \<and> (\<forall>x<nx. \<forall>y<ny. \<forall>i<9.
           f2 ! x ! y ! i =
             (if x = 0 \<and> i \<in> {1, 5, 8} then feq ! 0 ! y ! i else outflow f_prev ! x ! y ! i))
     \<and> update omega obst vp f_prev = collide_and_stream omega obst f2 feq"
proof -
  let ?f = "outflow f_prev"
  have sf: "field_shape nx ny 9 ?f"
    using f nx by (rule outflow_shape)
  note facts = inflow_stage_facts[OF sf vp st]
  have d: "grid_shape nx ny (get_density ?f)"
    using sf by (rule get_density_shape)
  have u: "field_shape nx ny 2 (get_macroscopic_velocities ?f (get_density ?f))"
    using sf d by (rule velocities_shape)
  have a: "\<forall>x<nx. \<forall>y<ny.
           u1 ! x ! y =
             (if x = 0 \<and> 1 \<le> y \<and> y + 1 < ny then vp ! 0 ! y
              else map (\<lambda>cd. momentum (?f ! x ! y) cd / sum_list (?f ! x ! y)) LATTICE_VELOCITIES)"
  proof (intro allI impI)
    fix x y assume x: "x < nx" and y: "y < ny"
    show "u1 ! x ! y =
             (if x = 0 \<and> 1 \<le> y \<and> y + 1 < ny then vp ! 0 ! y
              else map (\<lambda>cd. momentum (?f ! x ! y) cd / sum_list (?f ! x ! y)) LATTICE_VELOCITIES)"
      using inflow_velocity_nth[OF u x y, of vp] velocities_nth[OF sf d x y]
        get_density_nth[OF sf x y]
      by (simp add: facts(1))
  qed
  have b: "\<forall>x<nx. \<forall>y<ny.
           rho1 ! x ! y =
             (if x = 0
              then ((\<Sum>i\<leftarrow>PURE_VERTICAL_VELOCITIES. f_prev ! 0 ! y ! i)
                      + 2 * (\<Sum>i\<leftarrow>LEFT_VELOCITIES. f_prev ! 0 ! y ! i)) / (1 - u1 ! 0 ! y ! 0)
              else sum_list (?f ! x ! y))"
  proof (intro allI impI)
    fix x y assume x: "x < nx" and y: "y < ny"
    show "rho1 ! x ! y =
             (if x = 0
              then ((\<Sum>i\<leftarrow>PURE_VERTICAL_VELOCITIES. f_prev ! 0 ! y ! i)
                      + 2 * (\<Sum>i\<leftarrow>LEFT_VELOCITIES. f_prev ! 0 ! y ! i)) / (1 - u1 ! 0 ! y ! 0)
              else sum_list (?f ! x ! y))"
      using inflow_density_nth[OF sf facts(5) d x y] outflow_column0[OF f nx y]
        get_density_nth[OF sf x y]
      by (simp add: facts(2))
  qed
  have c: "\<forall>x<nx. \<forall>y<ny. \<forall>i<9.
           feq ! x ! y ! i =
             rho1 ! x ! y * LATTICE_WEIGHTS ! i *
               (1 + 3 * (real_of_int (cx i) * u1 ! x ! y ! 0 + real_of_int (cy i) * u1 ! x ! y ! 1)
                  + 4.5 * (real_of_int (cx i) * u1 ! x ! y ! 0 + real_of_int (cy i) * u1 ! x ! y ! 1) ^ 2
                  - 1.5 * ((u1 ! x ! y ! 0) ^ 2 + (u1 ! x ! y ! 1) ^ 2))"
    unfolding facts(3) using equilibrium_value[OF facts(5,6)] by blast
  have rs: "set RIGHT_VELOCITIES = {1, 5, 8}"
    by (simp add: RIGHT_VELOCITIES_def)
  have e: "\<forall>x<nx. \<forall>y<ny. \<forall>i<9.
           f2 ! x ! y ! i =
             (if x = 0 \<and> i \<in> {1, 5, 8} then feq ! 0 ! y ! i else ?f ! x ! y ! i)"
    using inflow_populations_nth[OF sf facts(7)] by (simp add: facts(4) rs)
  have g: "update omega obst vp f_prev = collide_and_stream omega obst f2 feq"
    by (simp add: update_def st)
  from facts(5,6,8) a b facts(3) c e g show ?thesis by blast
qed

lemma example_field_shape: "field_shape 2 3 9 example_field"
  by (simp add: field_shape_def example_field_def)

lemma example_profile_shape: "field_shape 2 3 2 example_profile"
  by (simp add: field_shape_iff example_profile_def velocity_profile_def)

lemma example_profile_nth: "x < 2 \<Longrightarrow> y < 3 \<Longrightarrow> example_profile ! x ! y = [0.04, 0]"
  by (simp add: example_profile_def velocity_profile_def MAX_HORIZONTAL_INFLOW_VELOCITY_def)

theorem inflow_zou_he_witness:
  "field_shape 2 3 9 example_field \<and> field_shape 2 3 2 example_profile \<and> (2::nat) \<le> 2
   \<and> (\<exists>u1 rho1 feq f2.
         inflow_stage example_profile (outflow example_field) = (u1, rho1, feq, f2)
         \<and> u1 ! 0 ! 1 = [0.04, 0]
         \<and> u1 ! 1 ! 1 = [298 / 735, - (2 / 245)]
         \<and> rho1 ! 0 ! 1 = 3425 / 24
         \<and> rho1 ! 1 ! 1 = 735
         \<and> f2 ! 0 ! 1 ! 5 = feq ! 0 ! 1 ! 5
         \<and> f2 ! 0 ! 1 ! 0 = 11
         \<and> f2 ! 1 ! 1 ! 3 = 14
         \<and> update (400 / 203) (replicate 2 (replicate 3 False)) example_profile example_field
             = collide_and_stream (400 / 203) (replicate 2 (replicate 3 False)) f2 feq)"
proof -
  obtain u1 rho1 feq f2
    where st: "inflow_stage example_profile (outflow example_field) = (u1, rho1, feq, f2)"
    by (metis prod_cases4)
  note t = inflow_zou_he[OF example_field_shape example_profile_shape order_refl st,
      of "400 / 203" "replicate 2 (replicate 3 False)"]
  have o01: "outflow example_field ! 0 ! 1 = [11, 12, 13, 14, 15, 16, 17, 18, 19]"
    by code_simp
  have o11: "outflow example_field ! 1 ! 1 = [111, 112, 113, 14, 115, 116, 17, 18, 119]"
    by code_simp
  have tu: "\<forall>x<2. \<forall>y<3. u1 ! x ! y =
             (if x = 0 \<and> 1 \<le> y \<and> y + 1 < 3 then example_profile ! 0 ! y
              else map (\<lambda>cd. momentum (outflow example_field ! x ! y) cd
                                / sum_list (outflow example_field ! x ! y)) LATTICE_VELOCITIES)"
    using t by blast
  have u: "u1 ! 0 ! 1 = [0.04, 0]"
    using tu[rule_format, of 0 1] example_profile_nth[of 0 1] by simp
  have "u1 ! 1 ! 1 = map (\<lambda>cd. momentum (outflow example_field ! 1 ! 1) cd
                                / sum_list (outflow example_field ! 1 ! 1)) LATTICE_VELOCITIES"
    using tu[rule_format, of 1 1] by simp
  then have "u1 ! 1 ! 1 = map (\<lambda>cd. momentum [111, 112, 113, 14, 115, 116, 17, 18, 119] cd
                                / sum_list [111, 112, 113, 14, 115, 116, 17, 18, 119 :: real])
                          LATTICE_VELOCITIES"
    by (simp only: o11)
  then have u11: "u1 ! 1 ! 1 = [298 / 735, - (2 / 245)]"
    by (simp add: momentum_def LATTICE_VELOCITIES_def)
  have ux: "u1 ! 0 ! 1 ! 0 = 0.04"
    using u by simp
  have tr: "\<forall>x<2. \<forall>y<3. rho1 ! x ! y =
             (if x = 0
              then ((\<Sum>i\<leftarrow>PURE_VERTICAL_VELOCITIES. example_field ! 0 ! y ! i)
                      + 2 * (\<Sum>i\<leftarrow>LEFT_VELOCITIES. example_field ! 0 ! y ! i)) / (1 - u1 ! 0 ! y ! 0)
              else sum_list (outflow example_field ! x ! y))"
    using t by blast
  have "rho1 ! 0 ! 1 =
      ((\<Sum>i\<leftarrow>PURE_VERTICAL_VELOCITIES. example_field ! 0 ! 1 ! i)
         + 2 * (\<Sum>i\<leftarrow>LEFT_VELOCITIES. example_field ! 0 ! 1 ! i)) / (1 - u1 ! 0 ! 1 ! 0)"
    using tr[rule_format, of 0 1] by simp
  then have "rho1 ! 0 ! 1 =
      ((\<Sum>i\<leftarrow>PURE_VERTICAL_VELOCITIES. example_field ! 0 ! 1 ! i)
         + 2 * (\<Sum>i\<leftarrow>LEFT_VELOCITIES. example_field ! 0 ! 1 ! i)) / (1 - 0.04)"
    by (simp only: ux)
  then have r: "rho1 ! 0 ! 1 = 3425 / 24"
    by (simp add: example_field_def PURE_VERTICAL_VELOCITIES_def LEFT_VELOCITIES_def)
  have r11: "rho1 ! 1 ! 1 = 735"
    using tr[rule_format, of 1 1] o11 by simp
  have tf: "\<forall>x<2. \<forall>y<3. \<forall>i<9. f2 ! x ! y ! i =
             (if x = 0 \<and> i \<in> {1, 5, 8} then feq ! 0 ! y ! i else outflow example_field ! x ! y ! i)"
    using t by blast
  have p: "f2 ! 0 ! 1 ! 5 = feq ! 0 ! 1 ! 5"
    using tf[rule_format, of 0 1 5] by simp
  have p0: "f2 ! 0 ! 1 ! 0 = 11"
    using tf[rule_format, of 0 1 0] o01 by simp
  have p3: "f2 ! 1 ! 1 ! 3 = 14"
    using tf[rule_format, of 1 1 3] o11 by simp
  have e: "update (400 / 203) (replicate 2 (replicate 3 False)) example_profile example_field
             = collide_and_stream (400 / 203) (replicate 2 (replicate 3 False)) f2 feq"
    using t by simp
  from st u u11 r r11 p p0 p3 e have "\<exists>u1 rho1 feq f2.
         inflow_stage example_profile (outflow example_field) = (u1, rho1, feq, f2)
         \<and> u1 ! 0 ! 1 = [0.04, 0]
         \<and> u1 ! 1 ! 1 = [298 / 735, - (2 / 245)]
         \<and> rho1 ! 0 ! 1 = 3425 / 24
         \<and> rho1 ! 1 ! 1 = 735
         \<and> f2 ! 0 ! 1 ! 5 = feq ! 0 ! 1 ! 5
         \<and> f2 ! 0 ! 1 ! 0 = 11
         \<and> f2 ! 1 ! 1 ! 3 = 14
         \<and> update (400 / 203) (replicate 2 (replicate 3 False)) example_profile example_field
             = collide_and_stream (400 / 203) (replicate 2 (replicate 3 False)) f2 feq"
    by blast
  with example_field_shape example_profile_shape show ?thesis
    by simp
qed

text \<open>
  C9. The density of column 0 is recomputed in every row, the first and the last included.
  In these two rows the velocity was not overwritten, so the divisor \<open>1 - u_x\<close> uses the
  horizontal velocity extracted from the distribution field: the horizontal momentum of the
  cell divided by its density.
\<close>

theorem inflow_density_corner_rows:
  assumes f: "field_shape nx ny 9 f_prev" and vp: "field_shape nx ny 2 vp" and nx: "2 \<le> nx"
    and st: "inflow_stage vp (outflow f_prev) = (u1, rho1, feq, f2)"
    and y: "y < ny" and corner: "y = 0 \<or> y + 1 = ny"
  shows "u1 ! 0 ! y ! 0 = momentum (f_prev ! 0 ! y) (LATTICE_VELOCITIES ! 0) / sum_list (f_prev ! 0 ! y)
     \<and> momentum (f_prev ! 0 ! y) (LATTICE_VELOCITIES ! 0) =
         f_prev ! 0 ! y ! 1 - f_prev ! 0 ! y ! 3 + f_prev ! 0 ! y ! 5
           - f_prev ! 0 ! y ! 6 - f_prev ! 0 ! y ! 7 + f_prev ! 0 ! y ! 8
     \<and> rho1 ! 0 ! y =
         ((\<Sum>i\<leftarrow>PURE_VERTICAL_VELOCITIES. f_prev ! 0 ! y ! i)
            + 2 * (\<Sum>i\<leftarrow>LEFT_VELOCITIES. f_prev ! 0 ! y ! i))
         / (1 - momentum (f_prev ! 0 ! y) (LATTICE_VELOCITIES ! 0) / sum_list (f_prev ! 0 ! y))"
proof -
  let ?f = "outflow f_prev"
  have sf: "field_shape nx ny 9 ?f"
    using f nx by (rule outflow_shape)
  note facts = inflow_stage_facts[OF sf vp st]
  have x0: "0 < nx" using nx by simp
  have d: "grid_shape nx ny (get_density ?f)"
    using sf by (rule get_density_shape)
  have u: "field_shape nx ny 2 (get_macroscopic_velocities ?f (get_density ?f))"
    using sf d by (rule velocities_shape)
  have c0: "?f ! 0 ! y = f_prev ! 0 ! y"
    using f nx y by (rule outflow_column0)
  have "u1 ! 0 ! y = get_macroscopic_velocities ?f (get_density ?f) ! 0 ! y"
    using inflow_velocity_nth[OF u x0 y, of vp] corner by (auto simp: facts(1))
  also have "\<dots> = map (\<lambda>cd. momentum (f_prev ! 0 ! y) cd / sum_list (f_prev ! 0 ! y)) LATTICE_VELOCITIES"
    using velocities_nth[OF sf d x0 y] get_density_nth[OF sf x0 y] by (simp add: c0)
  finally have ux: "u1 ! 0 ! y ! 0 =
      momentum (f_prev ! 0 ! y) (LATTICE_VELOCITIES ! 0) / sum_list (f_prev ! 0 ! y)"
    by (simp add: LATTICE_VELOCITIES_def)
  have len: "length (f_prev ! 0 ! y) = 9"
    using f x0 y by (simp add: field_shape_iff)
  have rho: "rho1 ! 0 ! y =
         ((\<Sum>i\<leftarrow>PURE_VERTICAL_VELOCITIES. f_prev ! 0 ! y ! i)
            + 2 * (\<Sum>i\<leftarrow>LEFT_VELOCITIES. f_prev ! 0 ! y ! i)) / (1 - u1 ! 0 ! y ! 0)"
    using inflow_density_nth[OF sf facts(5) d x0 y] by (simp add: facts(2) c0)
  show ?thesis
    using ux momentum_x[OF len] rho by simp
qed

text \<open>
  In the first row of the example the extracted velocity is \<open>- 2 / 45\<close> and the density
  becomes 45; with the prescribed velocity 0.04 it would have been \<open>47 / 0.96\<close>.
\<close>

theorem inflow_density_corner_rows_witness:
  "field_shape 2 3 9 example_field \<and> field_shape 2 3 2 example_profile \<and> (2::nat) \<le> 2
   \<and> (0::nat) < 3 \<and> ((0::nat) = 0 \<or> (0::nat) + 1 = 3)
   \<and> (\<exists>u1 rho1 feq f2.
         inflow_stage example_profile (outflow example_field) = (u1, rho1, feq, f2)
         \<and> u1 ! 0 ! 0 ! 0 = - 2 / 45 \<and> example_profile ! 0 ! 0 ! 0 = 0.04
         \<and> rho1 ! 0 ! 0 = 45 \<and> rho1 ! 0 ! 0 \<noteq> 47 / (1 - 0.04))"
proof -
  obtain u1 rho1 feq f2
    where st: "inflow_stage example_profile (outflow example_field) = (u1, rho1, feq, f2)"
    by (metis prod_cases4)
  have y: "(0::nat) < 3" and c: "(0::nat) = 0 \<or> (0::nat) + 1 = 3"
    by simp_all
  note t = inflow_density_corner_rows[OF example_field_shape example_profile_shape order_refl st y c]
  have cell: "example_field ! 0 ! 0 = [1, 2, 3, 4, 5, 6, 7, 8, 9]"
    by (simp add: example_field_def)
  have m: "momentum (example_field ! 0 ! 0) (LATTICE_VELOCITIES ! 0) = - 2"
    using t by (simp add: cell)
  have u: "u1 ! 0 ! 0 ! 0 = - 2 / 45"
    using t by (simp add: m) (simp add: cell)
  have r: "rho1 ! 0 ! 0 = 45"
    using t by (simp add: m) (simp add: cell PURE_VERTICAL_VELOCITIES_def LEFT_VELOCITIES_def)
  have p: "example_profile ! 0 ! 0 ! 0 = 0.04"
    by (simp add: example_profile_nth)
  have n: "rho1 ! 0 ! 0 \<noteq> 47 / (1 - 0.04)"
    by (simp add: r)
  from st u r p n have "\<exists>u1 rho1 feq f2.
         inflow_stage example_profile (outflow example_field) = (u1, rho1, feq, f2)
         \<and> u1 ! 0 ! 0 ! 0 = - 2 / 45 \<and> example_profile ! 0 ! 0 ! 0 = 0.04
         \<and> rho1 ! 0 ! 0 = 45 \<and> rho1 ! 0 ! 0 \<noteq> 47 / (1 - 0.04)"
    by blast
  with example_field_shape example_profile_shape show ?thesis
    by simp
qed

subsection \<open>Obstacle bounce-back\<close>

text \<open>
  C2. After the bounce-back loop, every population \<open>i\<close> of a masked cell holds the
  pre-collision population \<open>opposite i\<close> of the same cell, whatever collision had computed;
  the populations of every other cell are the collision result.
\<close>

theorem obstacle_bounce_back:
  assumes "grid_shape nx ny obst" and "field_shape nx ny 9 f_prev" and "field_shape nx ny 9 feq"
    and "x < nx" and "y < ny" and "i < 9"
  shows "bounce_back obst f_prev (collision omega f_prev feq) ! x ! y ! i =
       (if obst ! x ! y then f_prev ! x ! y ! opposite i
        else f_prev ! x ! y ! i - omega * (f_prev ! x ! y ! i - feq ! x ! y ! i))"
proof -
  have sp: "field_shape nx ny 9 (collision omega f_prev feq)"
    using assms(2,3) by (rule collision_shape)
  show ?thesis
    using bounce_back_nth[OF assms(1,2) sp assms(4,5,6)]
      collision_nth[OF assms(2,3,4,5,6), of omega]
    by simp
qed

theorem obstacle_bounce_back_witness:
  "grid_shape 1 2 [[True, False]]
   \<and> field_shape 1 2 9 [[[1, 2, 3, 4, 5, 6, 7, 8, 9], [11, 12, 13, 14, 15, 16, 17, 18, 19 :: real]]]
   \<and> field_shape 1 2 9 [[[0, 0, 0, 0, 0, 0, 0, 0, 0], [1, 1, 1, 1, 1, 1, 1, 1, 1 :: real]]]
   \<and> (0::nat) < 1 \<and> (0::nat) < 2 \<and> (1::nat) < 2 \<and> (5::nat) < 9
   \<and> bounce_back [[True, False]]
        [[[1, 2, 3, 4, 5, 6, 7, 8, 9], [11, 12, 13, 14, 15, 16, 17, 18, 19]]]
        (collision 2 [[[1, 2, 3, 4, 5, 6, 7, 8, 9], [11, 12, 13, 14, 15, 16, 17, 18, 19]]]
                     [[[0, 0, 0, 0, 0, 0, 0, 0, 0], [1, 1, 1, 1, 1, 1, 1, 1, 1]]]) ! 0 ! 0 ! 5 = 8
   \<and> bounce_back [[True, False]]
        [[[1, 2, 3, 4, 5, 6, 7, 8, 9], [11, 12, 13, 14, 15, 16, 17, 18, 19]]]
        (collision 2 [[[1, 2, 3, 4, 5, 6, 7, 8, 9], [11, 12, 13, 14, 15, 16, 17, 18, 19]]]
                     [[[0, 0, 0, 0, 0, 0, 0, 0, 0], [1, 1, 1, 1, 1, 1, 1, 1, 1]]]) ! 0 ! 1 ! 5 = - 14"
proof -
  define p :: field where "p = [[[1, 2, 3, 4, 5, 6, 7, 8, 9], [11, 12, 13, 14, 15, 16, 17, 18, 19]]]"
  define e :: field where "e = [[[0, 0, 0, 0, 0, 0, 0, 0, 0], [1, 1, 1, 1, 1, 1, 1, 1, 1]]]"
  have g: "grid_shape 1 2 [[True, False]]"
    by (simp add: grid_shape_def)
  have sp: "field_shape 1 2 9 p" and se: "field_shape 1 2 9 e"
    by (simp_all add: field_shape_def p_def e_def)
  have o: "opposite 5 = 7"
    by (simp add: opposite_def OPPOSITE_LATTICE_INDICES_def)
  have a: "bounce_back [[True, False]] p (collision 2 p e) ! 0 ! 0 ! 5 = 8"
    using obstacle_bounce_back[OF g sp se, of 0 0 5 2] by (simp add: o) (simp add: p_def)
  have b: "bounce_back [[True, False]] p (collision 2 p e) ! 0 ! 1 ! 5 = - 14"
    using obstacle_bounce_back[OF g sp se, of 0 1 5 2] by (simp add: p_def e_def)
  from g sp se a b show ?thesis
    unfolding p_def e_def by simp
qed

subsection \<open>Streaming\<close>

text \<open>
  C3. Streaming is periodic index remapping: the streamed population \<open>i\<close> of cell \<open>(x, y)\<close>
  is the post-collision population \<open>i\<close> of the cell \<open>((x - dx_i) mod Nx, (y - dy_i) mod Ny)\<close>,
  with wraparound on both axes; the shape of the field is kept.
\<close>

theorem streaming_index_remapping:
  assumes "field_shape nx ny 9 f_post" and "x < nx" and "y < ny" and "i < 9"
  shows "field_shape nx ny 9 (streaming f_post)
     \<and> streaming f_post ! x ! y ! i =
           f_post ! nat ((int x - cx i) mod int nx) ! nat ((int y - cy i) mod int ny) ! i"
  using assms by (simp add: streaming_shape streaming_nth)

theorem streaming_index_remapping_witness:
  "field_shape 2 3 9 example_field \<and> (0::nat) < 2 \<and> (0::nat) < 3 \<and> (5::nat) < 9
   \<and> field_shape 2 3 9 (streaming example_field)
   \<and> streaming example_field ! 0 ! 0 ! 5 = example_field ! 1 ! 2 ! 5
   \<and> streaming example_field ! 0 ! 0 ! 5 = 126"
proof -
  have c: "cx 5 = 1" "cy 5 = 1"
    by (simp_all add: cx_def cy_def LATTICE_VELOCITIES_def)
  have "field_shape 2 3 9 (streaming example_field)
     \<and> streaming example_field ! 0 ! 0 ! 5 =
         example_field ! nat ((int 0 - cx 5) mod int 2) ! nat ((int 0 - cy 5) mod int 3) ! 5"
    using streaming_index_remapping[OF example_field_shape, of 0 0 5] by simp
  then have "field_shape 2 3 9 (streaming example_field)
     \<and> streaming example_field ! 0 ! 0 ! 5 = example_field ! 1 ! 2 ! 5"
    by (simp add: c)
  moreover have "example_field ! 1 ! 2 ! 5 = 126"
    by (simp add: example_field_def)
  ultimately show ?thesis
    using example_field_shape by simp
qed

subsection \<open>Equilibrium\<close>

text \<open>
  C4. For a velocity field and a density field of the same grid, the equilibrium function
  returns, at every cell and for each of the nine directions \<open>i\<close>,
  \<open>rho * w_i * (1 + 3 (c_i \<cdot> u) + 4.5 (c_i \<cdot> u)\<^sup>2 - 1.5 |u|\<^sup>2)\<close>; it is a function of its two
  arguments only, and its result has nine populations per cell.
\<close>

theorem equilibrium_formula:
  assumes "field_shape nx ny 2 u" and "grid_shape nx ny rho"
    and "x < nx" and "y < ny" and "i < 9"
  shows "field_shape nx ny 9 (get_equilibrium_discrete_velocities u rho)
     \<and> get_equilibrium_discrete_velocities u rho ! x ! y ! i =
         rho ! x ! y * LATTICE_WEIGHTS ! i *
           (1 + 3 * (real_of_int (cx i) * u ! x ! y ! 0 + real_of_int (cy i) * u ! x ! y ! 1)
              + 4.5 * (real_of_int (cx i) * u ! x ! y ! 0 + real_of_int (cy i) * u ! x ! y ! 1) ^ 2
              - 1.5 * ((u ! x ! y ! 0) ^ 2 + (u ! x ! y ! 1) ^ 2))"
  using equilibrium_shape[OF assms(1,2)] equilibrium_value[OF assms] by simp

theorem equilibrium_formula_witness:
  "field_shape 1 1 2 [[[1 / 10, 1 / 5 :: real]]] \<and> grid_shape 1 1 [[2 :: real]]
   \<and> (0::nat) < 1 \<and> (5::nat) < 9
   \<and> get_equilibrium_discrete_velocities [[[1 / 10, 1 / 5]]] [[2]] ! 0 ! 0 ! 5 = 223 / 1800"
proof -
  have su: "field_shape 1 1 2 [[[1 / 10, 1 / 5 :: real]]]"
    by (simp add: field_shape_def)
  have sr: "grid_shape 1 1 [[2 :: real]]"
    by (simp add: grid_shape_def)
  have c: "cx 5 = 1" "cy 5 = 1" "LATTICE_WEIGHTS ! 5 = 1 / 36"
    by (simp_all add: cx_def cy_def LATTICE_VELOCITIES_def LATTICE_WEIGHTS_def)
  have "get_equilibrium_discrete_velocities [[[1 / 10, 1 / 5]]] [[2]] ! 0 ! 0 ! 5 = 223 / 1800"
    using equilibrium_formula[OF su sr, of 0 0 5] by (simp add: c power2_eq_square)
  with su sr show ?thesis
    by simp
qed

text \<open>
  C5. The rest equilibrium of a uniform density is a fixed point of collision followed by
  streaming: with velocity 0 in every cell, the same density \<open>r\<close> in every cell and no
  obstacle cell, lines 77 to 92 applied to the field \<open>equilibrium(u, rho)\<close>, with this
  equilibrium as \<open>feq\<close>, return the field unchanged. The density extracted from this field
  is \<open>r\<close> in every cell and, for \<open>r \<noteq> 0\<close>, the extracted velocity is 0, so that the
  equilibrium recomputed from the extracted fields is the field itself.
\<close>

theorem equilibrium_fixed_point:
  "collide_and_stream omega (replicate nx (replicate ny False))
       (get_equilibrium_discrete_velocities
          (replicate nx (replicate ny [0, 0])) (replicate nx (replicate ny r)))
       (get_equilibrium_discrete_velocities
          (replicate nx (replicate ny [0, 0])) (replicate nx (replicate ny r)))
     = get_equilibrium_discrete_velocities
          (replicate nx (replicate ny [0, 0])) (replicate nx (replicate ny r))
   \<and> get_density (get_equilibrium_discrete_velocities
          (replicate nx (replicate ny [0, 0])) (replicate nx (replicate ny r)))
     = replicate nx (replicate ny r)
   \<and> (r \<noteq> 0 \<longrightarrow>
        get_macroscopic_velocities
          (get_equilibrium_discrete_velocities
             (replicate nx (replicate ny [0, 0])) (replicate nx (replicate ny r)))
          (replicate nx (replicate ny r))
        = replicate nx (replicate ny [0, 0]))"
proof -
  define F where "F = get_equilibrium_discrete_velocities
          (replicate nx (replicate ny [0, 0])) (replicate nx (replicate ny r))"
  define obst where "obst = replicate nx (replicate ny False)"
  define P where "P = collision omega F F"
  define B where "B = bounce_back obst F P"
  have Fu: "F = replicate nx (replicate ny (equilibrium_cell [0, 0] r))"
    by (simp add: F_def uniform_equilibrium)
  have sF: "field_shape nx ny 9 F"
    using replicate_field_shape[of nx ny "equilibrium_cell [0, 0] r"] by (simp add: Fu)
  have so: "grid_shape nx ny obst"
    by (simp add: obst_def replicate_grid_shape)
  have sP: "field_shape nx ny 9 P"
    unfolding P_def using sF sF by (rule collision_shape)
  have sB: "field_shape nx ny 9 B"
    unfolding B_def using so sF sP by (rule bounce_back_shape)
  have sS: "field_shape nx ny 9 (streaming B)"
    using sB by (rule streaming_shape)
  have Fv: "F ! x ! y = equilibrium_cell [0, 0] r" if "x < nx" "y < ny" for x y
    using that by (simp add: Fu)
  have Bv: "B ! x ! y ! i = F ! x ! y ! i" if "x < nx" "y < ny" "i < 9" for x y i
  proof -
    have "B ! x ! y ! i = P ! x ! y ! i"
      unfolding B_def using bounce_back_nth[OF so sF sP that] that(1,2) by (simp add: obst_def)
    also have "\<dots> = F ! x ! y ! i"
      unfolding P_def using collision_nth[OF sF sF that] by simp
    finally show ?thesis .
  qed
  have "streaming B = F"
  proof (rule field_ext[OF sS sF])
    fix x y i :: nat
    assume xyi: "x < nx" "y < ny" "i < 9"
    let ?x = "nat ((int x - cx i) mod int nx)"
    let ?y = "nat ((int y - cy i) mod int ny)"
    have x': "?x < nx" and y': "?y < ny"
      using xyi by (simp_all add: roll_index_less)
    have "streaming B ! x ! y ! i = B ! ?x ! ?y ! i"
      using sB xyi by (rule streaming_nth)
    also have "\<dots> = F ! ?x ! ?y ! i"
      using x' y' xyi(3) by (rule Bv)
    also have "\<dots> = F ! x ! y ! i"
      using Fv[OF x' y'] Fv[OF xyi(1,2)] by simp
    finally show "streaming B ! x ! y ! i = F ! x ! y ! i" .
  qed
  then have a: "collide_and_stream omega obst F F = F"
    by (simp add: collide_and_stream_def B_def P_def)
  have b: "get_density F = replicate nx (replicate ny r)"
    by (simp add: Fu get_density_def get_density_row_def rest_equilibrium_cell_list algebra_simps)
  have c: "get_macroscopic_velocities F (replicate nx (replicate ny r))
      = replicate nx (replicate ny [0, 0])"
    by (simp add: Fu get_macroscopic_velocities_def zip_replicate map_replicate
        rest_equilibrium_cell_list momentum_def LATTICE_VELOCITIES_def)
  from a b c show ?thesis
    unfolding F_def obst_def by blast
qed

theorem equilibrium_fixed_point_witness:
  "(1::real) \<noteq> 0
   \<and> collide_and_stream (400 / 203) (replicate 2 (replicate 3 False))
       (get_equilibrium_discrete_velocities
          (replicate 2 (replicate 3 [0, 0])) (replicate 2 (replicate 3 1)))
       (get_equilibrium_discrete_velocities
          (replicate 2 (replicate 3 [0, 0])) (replicate 2 (replicate 3 1)))
     = get_equilibrium_discrete_velocities
          (replicate 2 (replicate 3 [0, 0])) (replicate 2 (replicate 3 1))
   \<and> get_macroscopic_velocities
          (get_equilibrium_discrete_velocities
             (replicate 2 (replicate 3 [0, 0])) (replicate 2 (replicate 3 1)))
          (replicate 2 (replicate 3 1))
        = replicate 2 (replicate 3 [0, 0])"
  using equilibrium_fixed_point[of "400 / 203" 2 3 1] by simp

subsection \<open>Relaxation frequency\<close>

text \<open>
  C6, as the code has it. Setup computes \<open>omega = 1 / (3 nu + 0.5)\<close> with \<open>nu = U R / Rey\<close>
  and checks no range: it stops only on a zero divisor, and otherwise the time loop starts
  with the computed \<open>omega\<close>, whatever its value.
\<close>

theorem setup_omega_unchecked:
  "setup_omega U R Rey =
     (if Rey = 0 \<or> 3 * (U * real_of_int R / Rey) + 0.5 = 0 then Inl ZeroDivisionError
      else Inr (1 / (3 * (U * real_of_int R / Rey) + 0.5)))"
  by (simp add: setup_omega_def kinematic_viscosity_def relaxation_frequency_def)

text \<open>
  With the source's velocity 0.04 and radius 5 and the Reynolds number \<open>- 80\<close>, setup returns
  \<open>omega = 400 / 197\<close>, which is above 2, and reports nothing.
\<close>

theorem omega_out_of_range_counterexample:
  "setup_omega 0.04 5 (- 80) = Inr (400 / 197)
   \<and> \<not> (0 < (400 / 197 :: real) \<and> (400 / 197 :: real) < 2)"
  by (simp add: setup_omega_def kinematic_viscosity_def relaxation_frequency_def)

theorem setup_omega_unchecked_witness:
  "setup_omega MAX_HORIZONTAL_INFLOW_VELOCITY CYLINDER_RADIUS_INDICES REYNOLDS_NUMBER
     = Inr (400 / 203)"
  using setup_omega_unchecked[of MAX_HORIZONTAL_INFLOW_VELOCITY CYLINDER_RADIUS_INDICES REYNOLDS_NUMBER]
  by (simp add: MAX_HORIZONTAL_INFLOW_VELOCITY_def CYLINDER_RADIUS_INDICES_def
      REYNOLDS_NUMBER_def N_POINTS_Y_def)

subsection \<open>Outflow\<close>

text \<open>
  C7. The outflow patch is the first thing a step does. It copies the three leftward
  populations of every cell of the second-to-last column into the cell of the same row of
  the last column, and changes nothing else: every other column, and the six other
  populations of the last column, are as before.
\<close>

theorem outflow_patch_frame:
  assumes "field_shape nx ny 9 f" and "2 \<le> nx"
  shows "field_shape nx ny 9 (outflow f)
     \<and> (\<forall>x<nx. \<forall>y<ny. \<forall>i<9.
          outflow f ! x ! y ! i =
            (if x = nx - 1 \<and> i \<in> {3, 6, 7} then f ! (nx - 2) ! y ! i else f ! x ! y ! i))
     \<and> update omega obst vp f =
         (case inflow_stage vp (outflow f) of
            (u1, rho1, feq, f2) \<Rightarrow> collide_and_stream omega obst f2 feq)"
proof -
  have "set LEFT_VELOCITIES = {3, 6, 7}"
    by (simp add: LEFT_VELOCITIES_def)
  then show ?thesis
    using assms by (simp add: outflow_shape outflow_nth update_def)
qed

theorem outflow_patch_frame_witness:
  "field_shape 2 3 9 example_field \<and> (2::nat) \<le> 2
   \<and> outflow example_field ! 1 ! 1 ! 6 = 17 \<and> example_field ! 1 ! 1 ! 6 = 117
   \<and> outflow example_field ! 1 ! 1 ! 5 = 116
   \<and> outflow example_field ! 0 ! 1 ! 6 = 17"
proof -
  have t: "\<forall>x<2. \<forall>y<3. \<forall>i<9.
          outflow example_field ! x ! y ! i =
            (if x = 2 - 1 \<and> i \<in> {3, 6, 7} then example_field ! (2 - 2) ! y ! i
             else example_field ! x ! y ! i)"
    using outflow_patch_frame[OF example_field_shape order_refl] by blast
  have a: "outflow example_field ! 1 ! 1 ! 6 = example_field ! 0 ! 1 ! 6"
    using t[rule_format, of 1 1 6] by simp
  have b: "outflow example_field ! 1 ! 1 ! 5 = example_field ! 1 ! 1 ! 5"
    using t[rule_format, of 1 1 5] by simp
  have c: "outflow example_field ! 0 ! 1 ! 6 = example_field ! 0 ! 1 ! 6"
    using t[rule_format, of 0 1 6] by simp
  have v: "example_field ! 0 ! 1 ! 6 = 17" "example_field ! 1 ! 1 ! 5 = 116"
    "example_field ! 1 ! 1 ! 6 = 117"
    by (simp_all add: example_field_def)
  from a b c v example_field_shape show ?thesis
    by simp
qed

subsection \<open>Lattice constants\<close>

text \<open>
  C8. Direction 0 is the rest vector; the opposite table is an involution that negates the
  velocity vector; the nine weights sum to 1; the weighted sum of the direction vectors
  is the zero vector.
\<close>

theorem lattice_constants:
  "cx 0 = 0 \<and> cy 0 = 0
   \<and> (\<forall>i<9. opposite i < 9 \<and> opposite (opposite i) = i
          \<and> cx (opposite i) = - cx i \<and> cy (opposite i) = - cy i)
   \<and> length LATTICE_WEIGHTS = 9 \<and> sum_list LATTICE_WEIGHTS = 1
   \<and> (\<Sum>i<9. LATTICE_WEIGHTS ! i * real_of_int (cx i)) = 0
   \<and> (\<Sum>i<9. LATTICE_WEIGHTS ! i * real_of_int (cy i)) = 0"
proof -
  have nine: "{..<9::nat} = {0, 1, 2, 3, 4, 5, 6, 7, 8}"
    by auto
  have opp: "\<forall>i\<in>{0, 1, 2, 3, 4, 5, 6, 7, 8::nat}. opposite i < 9 \<and> opposite (opposite i) = i
          \<and> cx (opposite i) = - cx i \<and> cy (opposite i) = - cy i"
    by (simp add: opposite_def cx_def cy_def OPPOSITE_LATTICE_INDICES_def LATTICE_VELOCITIES_def)
  have opp': "\<forall>i<9. opposite i < 9 \<and> opposite (opposite i) = i
          \<and> cx (opposite i) = - cx i \<and> cy (opposite i) = - cy i"
    using opp nine by blast
  have rest: "cx 0 = 0 \<and> cy 0 = 0"
    by (simp add: cx_def cy_def LATTICE_VELOCITIES_def)
  have w: "length LATTICE_WEIGHTS = 9 \<and> sum_list LATTICE_WEIGHTS = 1"
    by (simp add: LATTICE_WEIGHTS_def)
  have mx: "(\<Sum>i<9. LATTICE_WEIGHTS ! i * real_of_int (cx i)) = 0"
    unfolding nine by (simp add: LATTICE_WEIGHTS_def cx_def LATTICE_VELOCITIES_def)
  have my: "(\<Sum>i<9. LATTICE_WEIGHTS ! i * real_of_int (cy i)) = 0"
    unfolding nine by (simp add: LATTICE_WEIGHTS_def cy_def LATTICE_VELOCITIES_def)
  from rest opp' w mx my show ?thesis
    by blast
qed

theorem lattice_constants_witness:
  "(5::nat) < 9 \<and> opposite 5 = 7 \<and> opposite (opposite 5) = 5
   \<and> cx (opposite 5) = - cx 5 \<and> cy (opposite 5) = - cy 5"
proof -
  have "opposite 5 = 7"
    by (simp add: opposite_def OPPOSITE_LATTICE_INDICES_def)
  moreover have "(5::nat) < 9"
    by simp
  ultimately show ?thesis
    using lattice_constants by blast
qed

subsection \<open>Obstacle mask\<close>

text \<open>
  C10. A grid cell is masked exactly when its Euclidean distance from the cylinder centre
  is strictly less than the radius; for a non-negative radius this is the strict comparison
  of the squared integer distance with the squared radius. A cell at distance exactly the
  radius is not masked, and bounce-back leaves all its populations as they were.
\<close>

theorem obstacle_mask_strict:
  assumes "x < nx" and "y < ny"
  shows "(obstacle_mask nx ny ccx ccy r ! x ! y \<longleftrightarrow>
            sqrt (real_of_int ((int x - ccx) ^ 2 + (int y - ccy) ^ 2)) < real_of_int r)
     \<and> (0 \<le> r \<longrightarrow>
          (obstacle_mask nx ny ccx ccy r ! x ! y \<longleftrightarrow> (int x - ccx) ^ 2 + (int y - ccy) ^ 2 < r ^ 2))
     \<and> ((int x - ccx) ^ 2 + (int y - ccy) ^ 2 = r ^ 2 \<longrightarrow>
          \<not> obstacle_mask nx ny ccx ccy r ! x ! y
          \<and> (\<forall>f_prev f_post. field_shape nx ny 9 f_prev \<and> field_shape nx ny 9 f_post \<longrightarrow>
                (\<forall>i<9. bounce_back (obstacle_mask nx ny ccx ccy r) f_prev f_post ! x ! y ! i
                         = f_post ! x ! y ! i)))"
proof -
  have m: "obstacle_mask nx ny ccx ccy r ! x ! y = obstacle_cell ccx ccy r x y"
    using assms by (rule obstacle_mask_nth)
  have a: "obstacle_mask nx ny ccx ccy r ! x ! y \<longleftrightarrow>
            sqrt (real_of_int ((int x - ccx) ^ 2 + (int y - ccy) ^ 2)) < real_of_int r"
    by (simp add: m obstacle_cell_def)
  have b: "0 \<le> r \<longrightarrow>
          (obstacle_mask nx ny ccx ccy r ! x ! y \<longleftrightarrow> (int x - ccx) ^ 2 + (int y - ccy) ^ 2 < r ^ 2)"
    by (simp add: m obstacle_cell_squared)
  have c: "\<not> obstacle_mask nx ny ccx ccy r ! x ! y
          \<and> (\<forall>f_prev f_post. field_shape nx ny 9 f_prev \<and> field_shape nx ny 9 f_post \<longrightarrow>
                (\<forall>i<9. bounce_back (obstacle_mask nx ny ccx ccy r) f_prev f_post ! x ! y ! i
                         = f_post ! x ! y ! i))"
    if e: "(int x - ccx) ^ 2 + (int y - ccy) ^ 2 = r ^ 2"
  proof -
    have n: "\<not> obstacle_mask nx ny ccx ccy r ! x ! y"
      using obstacle_cell_boundary[OF e] by (simp add: m)
    then show ?thesis
      using bounce_back_nth[OF obstacle_mask_shape _ _ assms] by simp
  qed
  from a b c show ?thesis by blast
qed

theorem obstacle_mask_strict_witness:
  "(1::nat) < 2 \<and> (1::nat) < 3 \<and> (0::int) \<le> 1
   \<and> (int 1 - 0) ^ 2 + (int 1 - 1) ^ 2 = (1::int) ^ 2
   \<and> field_shape 2 3 9 example_field \<and> (5::nat) < 9
   \<and> \<not> obstacle_mask 2 3 0 1 1 ! 1 ! 1
   \<and> obstacle_mask 2 3 0 1 1 ! 0 ! 1
   \<and> bounce_back (obstacle_mask 2 3 0 1 1) example_field example_field ! 1 ! 1 ! 5 = 116
   \<and> \<not> obstacle_mask N_POINTS_X N_POINTS_Y CYLINDER_CENTER_INDEX_X CYLINDER_CENTER_INDEX_Y
         CYLINDER_RADIUS_INDICES ! 65 ! 25
   \<and> obstacle_mask N_POINTS_X N_POINTS_Y CYLINDER_CENTER_INDEX_X CYLINDER_CENTER_INDEX_Y
         CYLINDER_RADIUS_INDICES ! 64 ! 25"
proof -
  have e: "(int 1 - 0) ^ 2 + (int 1 - 1) ^ 2 = (1::int) ^ 2"
    by simp
  have a: "\<not> obstacle_mask 2 3 0 1 1 ! 1 ! 1"
    using obstacle_mask_strict[of 1 2 1 3 0 1 1] e by simp
  have b: "obstacle_mask 2 3 0 1 1 ! 0 ! 1"
    using obstacle_mask_strict[of 0 2 1 3 0 1 1] by simp
  have "\<forall>i<9. bounce_back (obstacle_mask 2 3 0 1 1) example_field example_field ! 1 ! 1 ! i
                = example_field ! 1 ! 1 ! i"
    using obstacle_mask_strict[of 1 2 1 3 0 1 1] e example_field_shape by simp
  then have "bounce_back (obstacle_mask 2 3 0 1 1) example_field example_field ! 1 ! 1 ! 5
                = example_field ! 1 ! 1 ! 5"
    by simp
  then have c: "bounce_back (obstacle_mask 2 3 0 1 1) example_field example_field ! 1 ! 1 ! 5 = 116"
    by (simp add: example_field_def)
  have k: "N_POINTS_X = 300" "N_POINTS_Y = 50" "CYLINDER_CENTER_INDEX_X = 60"
    "CYLINDER_CENTER_INDEX_Y = 25" "CYLINDER_RADIUS_INDICES = 5"
    by (simp_all add: N_POINTS_X_def N_POINTS_Y_def CYLINDER_CENTER_INDEX_X_def
        CYLINDER_CENTER_INDEX_Y_def CYLINDER_RADIUS_INDICES_def)
  have d: "\<not> obstacle_mask 300 50 60 25 5 ! 65 ! 25"
    using obstacle_mask_strict[of 65 300 25 50 60 25 5] by simp
  have f: "obstacle_mask 300 50 60 25 5 ! 64 ! 25"
    using obstacle_mask_strict[of 64 300 25 50 60 25 5] by simp
  from a b c d f example_field_shape show ?thesis
    by (simp add: k)
qed

end
